theory Spec2Isabelle
  imports Main "HOL-Library.Word" "HOL-Library.Multiset"
begin

section \<open>JavaScript strings and values\<close>

text \<open>
  The program is the React component \<open>App\<close> of \<open>src/App.tsx\<close>. A JavaScript string is a
  sequence of UTF-16 code units, so a string is a list of 16-bit words. \<open>js\<close> turns an
  ASCII literal of the source into its code units.
\<close>

type_synonym jschar = "16 word"
type_synonym jsstring = "jschar list"

definition js :: "string \<Rightarrow> jsstring" where
  "js s = map of_char s"

definition newline :: jschar where
  "newline = 0x0A"

definition comma :: jschar where
  "comma = 0x2C"

text \<open>
  The code units that \<open>String.prototype.trim\<close> strips: the WhiteSpace and LineTerminator
  productions of ECMAScript (tab, vertical tab, form feed, space, no-break space, the byte
  order mark, the Unicode space separators, line feed, carriage return, line and paragraph
  separator).
\<close>

definition is_ws :: "jschar \<Rightarrow> bool" where
  "is_ws c \<longleftrightarrow>
     c = 0x09 \<or> c = 0x0A \<or> c = 0x0B \<or> c = 0x0C \<or> c = 0x0D \<or> c = 0x20 \<or> c = 0xA0 \<or>
     c = 0x1680 \<or> (0x2000 \<le> c \<and> c \<le> 0x200A) \<or> c = 0x2028 \<or> c = 0x2029 \<or>
     c = 0x202F \<or> c = 0x205F \<or> c = 0x3000 \<or> c = 0xFEFF"

definition trim :: "jsstring \<Rightarrow> jsstring" where
  "trim s = rev (dropWhile is_ws (rev (dropWhile is_ws s)))"

text \<open>
  \<open>s.split(sep)\<close> with a separator of one code unit: the pieces between the occurrences
  of the separator, the current piece being collected in \<open>cur\<close>. The last piece is always
  emitted, so the empty string splits to one empty piece.
\<close>

fun split_from :: "jschar \<Rightarrow> jsstring \<Rightarrow> jsstring \<Rightarrow> jsstring list" where
  "split_from sep cur [] = [cur]"
| "split_from sep cur (c # cs) =
     (if c = sep then cur # split_from sep [] cs else split_from sep (cur @ [c]) cs)"

definition split :: "jschar \<Rightarrow> jsstring \<Rightarrow> jsstring list" where
  "split sep s = split_from sep [] s"

text \<open>
  A value read from an array or stored in a field of a menu item: a string, or
  \<open>undefined\<close> when the array was read past its end. Exceptions are values: an \<open>Error\<close>
  with its message, or a \<open>TypeError\<close>.
\<close>

datatype jsvalue = Undefined | Str jsstring

datatype exn = Error jsstring | TypeError

definition at :: "jsstring list \<Rightarrow> nat \<Rightarrow> jsvalue" where
  "at values i = (if i < length values then Str (values ! i) else Undefined)"

section \<open>The parser\<close>

record MenuItem =
  Date :: jsvalue
  Meal_Type :: jsvalue
  Item_Name :: jsvalue
  Price :: jsvalue

definition item_of :: "jsstring list \<Rightarrow> MenuItem" where
  "item_of values =
     \<lparr>Date = at values 0, Meal_Type = at values 1, Item_Name = at values 2, Price = at values 3\<rparr>"

text \<open>
  The \<open>for\<close> loop of \<open>parseCSVToJSON\<close> over the lines after the first: \<open>hn\<close> is
  \<open>headers.length\<close>, \<open>data\<close> the array the loop pushes to.
\<close>

fun parse_rows :: "nat \<Rightarrow> jsstring list \<Rightarrow> MenuItem list \<Rightarrow> MenuItem list" where
  "parse_rows hn [] data = data"
| "parse_rows hn (line # rest) data =
     (let values = map trim (split comma line)
      in if length values = hn then parse_rows hn rest (data @ [item_of values])
         else parse_rows hn rest data)"

text \<open>
  \<open>lines[0]\<close> of an empty array would be \<open>undefined\<close>, and calling \<open>split\<close> on it would
  throw a \<open>TypeError\<close>: that branch is in the model.
\<close>

definition parseCSVToJSON :: "jsstring \<Rightarrow> exn + MenuItem list" where
  "parseCSVToJSON csv =
     (let lines = split newline (trim csv)
      in case lines of
           [] \<Rightarrow> Inl TypeError
         | first # rest \<Rightarrow>
             (let headers = map trim (split comma first)
              in Inr (parse_rows (length headers) rest [])))"

text \<open>The lines the parser sees, its header line and its data rows.\<close>

definition csv_lines :: "jsstring \<Rightarrow> jsstring list" where
  "csv_lines csv = split newline (trim csv)"

definition header_line :: "jsstring \<Rightarrow> jsstring" where
  "header_line csv = (case csv_lines csv of [] \<Rightarrow> [] | first # rest \<Rightarrow> first)"

definition data_rows :: "jsstring \<Rightarrow> jsstring list" where
  "data_rows csv = (case csv_lines csv of [] \<Rightarrow> [] | first # rest \<Rightarrow> rest)"

definition field_count :: "jsstring \<Rightarrow> nat" where
  "field_count line = length (split comma line)"

definition row_item :: "jsstring \<Rightarrow> MenuItem" where
  "row_item line = item_of (map trim (split comma line))"

text \<open>A field has no whitespace left at either end.\<close>

fun trimmed :: "jsvalue \<Rightarrow> bool" where
  "trimmed Undefined = True"
| "trimmed (Str s) = (s = [] \<or> (\<not> is_ws (hd s) \<and> \<not> is_ws (last s)))"

section \<open>Filtering and grouping\<close>

text \<open>\<open>data.filter(item => item.Date === today)\<close>: strict equality with the string \<open>today\<close>.\<close>

definition todaysMenu :: "MenuItem list \<Rightarrow> jsstring \<Rightarrow> MenuItem list" where
  "todaysMenu data today = filter (\<lambda>item. Date item = Str today) data"

text \<open>
  \<open>grouped\<close> is a plain object created by \<open>{}\<close>: its own properties, kept in the order of
  their creation, and behind them the properties it inherits from \<open>Object.prototype\<close>.
  A property key is a string; \<open>undefined\<close> used as a key is the string \<open>undefined\<close>.
\<close>

type_synonym 'v object = "(jsstring \<times> 'v) list"

fun property_key :: "jsvalue \<Rightarrow> jsstring" where
  "property_key Undefined = js ''undefined''"
| "property_key (Str s) = s"

definition object_prototype_keys :: "jsstring list" where
  "object_prototype_keys = map js
     [''constructor'', ''hasOwnProperty'', ''isPrototypeOf'', ''propertyIsEnumerable'',
      ''toLocaleString'', ''toString'', ''valueOf'', ''__defineGetter__'', ''__defineSetter__'',
      ''__lookupGetter__'', ''__lookupSetter__'', ''__proto__'']"

text \<open>
  Reading \<open>obj[k]\<close>: an own property, else an inherited one (a function of
  \<open>Object.prototype\<close>, or the prototype itself for \<open>__proto__\<close>: truthy, and without a
  \<open>push\<close> or \<open>map\<close> method), else \<open>undefined\<close>.
\<close>

datatype 'v property = Own 'v | Inherited | Absent

definition get_property :: "'v object \<Rightarrow> jsstring \<Rightarrow> 'v property" where
  "get_property obj k =
     (case map_of obj k of
        Some v \<Rightarrow> Own v
      | None \<Rightarrow> if k \<in> set object_prototype_keys then Inherited else Absent)"

text \<open>Writing \<open>obj[k] = v\<close>: an own property keeps its place, a new one goes last.\<close>

fun set_property :: "jsstring \<Rightarrow> 'v \<Rightarrow> 'v object \<Rightarrow> 'v object" where
  "set_property k v [] = [(k, v)]"
| "set_property k v (p # ps) = (if fst p = k then (k, v) # ps else p # set_property k v ps)"

text \<open>
  The body of the \<open>forEach\<close> callback of \<open>groupByMealType\<close>. \<open>!grouped[k]\<close> holds only when
  the read gives \<open>undefined\<close>; \<open>grouped[k].push(item)\<close> throws a \<open>TypeError\<close> unless the
  read gives an array.
\<close>

definition group_item :: "MenuItem list object \<Rightarrow> MenuItem \<Rightarrow> exn + MenuItem list object" where
  "group_item grouped item =
     (let k = property_key (Meal_Type item);
          grouped1 = (case get_property grouped k of
                        Absent \<Rightarrow> set_property k [] grouped
                      | _ \<Rightarrow> grouped)
      in case get_property grouped1 k of
           Own arr \<Rightarrow> Inr (set_property k (arr @ [item]) grouped1)
         | _ \<Rightarrow> Inl TypeError)"

fun group_items :: "MenuItem list object \<Rightarrow> MenuItem list \<Rightarrow> exn + MenuItem list object" where
  "group_items grouped [] = Inr grouped"
| "group_items grouped (item # rest) =
     (case group_item grouped item of
        Inl e \<Rightarrow> Inl e
      | Inr grouped1 \<Rightarrow> group_items grouped1 rest)"

definition groupByMealType :: "MenuItem list \<Rightarrow> exn + MenuItem list object" where
  "groupByMealType items = group_items [] items"

section \<open>Ordering the categories\<close>

text \<open>
  \<open>Object.keys\<close> lists the own keys that are array indices (canonical decimal strings of
  the integers below \<open>2^32 - 1\<close>) first, in ascending numeric order, and then the other
  keys in the order of their creation.
\<close>

definition is_digit :: "jschar \<Rightarrow> bool" where
  "is_digit c \<longleftrightarrow> 0x30 \<le> c \<and> c \<le> 0x39"

definition digits_value :: "jsstring \<Rightarrow> nat" where
  "digits_value k = foldl (\<lambda>n c. 10 * n + (unat c - 48)) 0 k"

definition array_index :: "jsstring \<Rightarrow> nat option" where
  "array_index k =
     (if k \<noteq> [] \<and> list_all is_digit k \<and> (k = [0x30] \<or> hd k \<noteq> 0x30)
         \<and> digits_value k < 2 ^ 32 - 1
      then Some (digits_value k) else None)"

definition index_value :: "jsstring \<Rightarrow> nat" where
  "index_value k = (case array_index k of Some n \<Rightarrow> n | None \<Rightarrow> 0)"

definition object_keys :: "'v object \<Rightarrow> jsstring list" where
  "object_keys obj =
     (let ks = map fst obj
      in sort_key index_value (filter (\<lambda>k. array_index k \<noteq> None) ks)
         @ filter (\<lambda>k. array_index k = None) ks)"

definition mealTypeOrder :: "jsstring list" where
  "mealTypeOrder = [js ''Breakfast'', js ''Lunch'', js ''Snacks'', js ''Dinner'']"

text \<open>\<open>Array.prototype.indexOf\<close>: the first position of \<open>x\<close>, or \<open>-1\<close>.\<close>

fun indexOf_from :: "int \<Rightarrow> jsstring list \<Rightarrow> jsstring \<Rightarrow> int" where
  "indexOf_from i [] x = - 1"
| "indexOf_from i (y # ys) x = (if y = x then i else indexOf_from (i + 1) ys x)"

definition indexOf :: "jsstring list \<Rightarrow> jsstring \<Rightarrow> int" where
  "indexOf xs x = indexOf_from 0 xs x"

text \<open>The comparator passed to \<open>sort\<close>.\<close>

definition compare_meal :: "jsstring \<Rightarrow> jsstring \<Rightarrow> int" where
  "compare_meal a b =
     (let aIndex = indexOf mealTypeOrder a;
          bIndex = indexOf mealTypeOrder b
      in (if aIndex = - 1 then 999 else aIndex) - (if bIndex = - 1 then 999 else bIndex))"

text \<open>
  \<open>Array.prototype.sort\<close> with a comparator is a stable sort (ECMAScript 2019): elements
  that compare equal keep their order. Insertion from the right, each element going in
  front of the first element it does not exceed, is such a sort.
\<close>

fun insert_sorted :: "('a \<Rightarrow> 'a \<Rightarrow> int) \<Rightarrow> 'a \<Rightarrow> 'a list \<Rightarrow> 'a list" where
  "insert_sorted cmp x [] = [x]"
| "insert_sorted cmp x (y # ys) =
     (if cmp x y \<le> 0 then x # y # ys else y # insert_sorted cmp x ys)"

definition array_sort :: "('a \<Rightarrow> 'a \<Rightarrow> int) \<Rightarrow> 'a list \<Rightarrow> 'a list" where
  "array_sort cmp xs = foldr (insert_sorted cmp) xs []"

definition sortedMealTypes :: "'v object \<Rightarrow> jsstring list" where
  "sortedMealTypes groupedMenu = array_sort compare_meal (object_keys groupedMenu)"

text \<open>
  The sections of the menu, as the JSX builds them: \<open>groupedMenu[mealType].map(...)\<close> for
  every \<open>mealType\<close> of \<open>sortedMealTypes\<close>, in that order.
\<close>

fun sections :: "MenuItem list object \<Rightarrow> jsstring list \<Rightarrow> exn + (jsstring \<times> MenuItem list) list" where
  "sections groupedMenu [] = Inr []"
| "sections groupedMenu (mealType # rest) =
     (case get_property groupedMenu mealType of
        Own arr \<Rightarrow>
          (case sections groupedMenu rest of
             Inl e \<Rightarrow> Inl e
           | Inr secs \<Rightarrow> Inr ((mealType, arr) # secs))
      | _ \<Rightarrow> Inl TypeError)"

text \<open>The view of a list of records: the ordered categories, each with its records.\<close>

definition menuView :: "MenuItem list \<Rightarrow> exn + (jsstring \<times> MenuItem list) list" where
  "menuView items =
     (case groupByMealType items of
        Inl e \<Rightarrow> Inl e
      | Inr groupedMenu \<Rightarrow> sections groupedMenu (sortedMealTypes groupedMenu))"

definition pipeline :: "jsstring \<Rightarrow> jsstring \<Rightarrow> exn + (jsstring \<times> MenuItem list) list" where
  "pipeline csv today =
     (case parseCSVToJSON csv of
        Inl e \<Rightarrow> Inl e
      | Inr data \<Rightarrow> menuView (todaysMenu data today))"

text \<open>The category of a record as a key, and the order in which keys first occur.\<close>

definition category :: "MenuItem \<Rightarrow> jsstring" where
  "category item = property_key (Meal_Type item)"

fun first_occurrences :: "'a list \<Rightarrow> 'a list" where
  "first_occurrences [] = []"
| "first_occurrences (x # xs) = x # filter (\<lambda>y. y \<noteq> x) (first_occurrences xs)"

section \<open>The refresh cycle and the rendering\<close>

text \<open>
  The state of the component, and what one run of \<open>fetchMenuData\<close> meets outside it: the
  outcome of \<open>fetch\<close> (rejected, or a response with its \<open>ok\<close> flag and the outcome of
  \<open>text()\<close>), the ISO date \<open>today\<close> and the formatted date label. A run is taken alone:
  runs that overlap in time are not modelled.
\<close>

record app_state =
  menuItems :: "MenuItem list"
  loading :: bool
  error :: "jsstring option"
  currentDate :: jsstring

datatype body = BodyFailed exn | Body jsstring

datatype fetched = Rejected exn | Response bool body

record environment =
  fetched :: fetched
  today :: jsstring
  dateLabel :: jsstring

definition error_message :: jsstring where
  "error_message = js ''Unable to load menu. Please try again later.''"

text \<open>The statements of the \<open>try\<close> block after the two setters that open it.\<close>

definition try_block :: "environment \<Rightarrow> exn + (MenuItem list \<times> jsstring)" where
  "try_block env =
     (case fetched env of
        Rejected e \<Rightarrow> Inl e
      | Response ok b \<Rightarrow>
          if \<not> ok then Inl (Error (js ''Failed to fetch menu''))
          else (case b of
                  BodyFailed e \<Rightarrow> Inl e
                | Body csvText \<Rightarrow>
                    (case parseCSVToJSON csvText of
                       Inl e \<Rightarrow> Inl e
                     | Inr data \<Rightarrow> Inr (todaysMenu data (today env), dateLabel env))))"

text \<open>
  One run of \<open>fetchMenuData\<close>: the state it leaves and what it wrote with
  \<open>console.error\<close>.
\<close>

definition fetchMenuData :: "app_state \<Rightarrow> environment \<Rightarrow> app_state \<times> exn list" where
  "fetchMenuData s env =
     (let s1 = s\<lparr>loading := True, error := None\<rparr>
      in case try_block env of
           Inr (todays, label) \<Rightarrow>
             (s1\<lparr>menuItems := todays, currentDate := label, loading := False\<rparr>, [])
         | Inl err \<Rightarrow>
             (s1\<lparr>error := Some error_message, loading := False\<rparr>, [err]))"

text \<open>
  The scheduler's state as the rendering reads it: \<open>loading\<close> first, then a truthy
  \<open>error\<close> (a non-empty string), else ready.
\<close>

datatype status = Loading | Failed jsstring | Ready

definition truthy :: "jsstring option \<Rightarrow> bool" where
  "truthy e = (case e of None \<Rightarrow> False | Some msg \<Rightarrow> msg \<noteq> [])"

definition status_of :: "app_state \<Rightarrow> status" where
  "status_of s =
     (if loading s then Loading
      else if truthy (error s) then Failed (case error s of Some msg \<Rightarrow> msg | None \<Rightarrow> [])
      else Ready)"

text \<open>
  What the component renders from a state: the date label of the header, and the main
  area. The grouping and the sorting run at every rendering, before the JSX, outside the
  \<open>try\<close> block of \<open>fetchMenuData\<close>.
\<close>

datatype screen =
  ShowLoading
  | ShowError jsstring
  | ShowEmpty
  | ShowMenu "(jsstring \<times> MenuItem list) list"

definition render :: "app_state \<Rightarrow> exn + (jsstring \<times> screen)" where
  "render s =
     (case groupByMealType (menuItems s) of
        Inl e \<Rightarrow> Inl e
      | Inr groupedMenu \<Rightarrow>
          (let sorted = sortedMealTypes groupedMenu
           in case status_of s of
                Loading \<Rightarrow> Inr (currentDate s, ShowLoading)
              | Failed msg \<Rightarrow> Inr (currentDate s, ShowError msg)
              | Ready \<Rightarrow>
                  if menuItems s = [] then Inr (currentDate s, ShowEmpty)
                  else (case sections groupedMenu sorted of
                          Inl e \<Rightarrow> Inl e
                        | Inr secs \<Rightarrow> Inr (currentDate s, ShowMenu secs))))"

section \<open>Sample inputs\<close>

text \<open>The input of the spec's scenario A, and a menu with padded fields and a CRLF line end.\<close>

definition scenarioA :: jsstring where
  "scenarioA =
     js ''Date,Meal_Type,Item_Name,Price'' @ [newline]
     @ js ''2024-01-01,Lunch,Rice,50'' @ [newline]
     @ js ''2024-01-01,Breakfast,Idli,30'' @ [newline]
     @ js ''badrow,onlytwo'' @ [newline]"

definition padded_menu :: jsstring where
  "padded_menu =
     js ''Date,Meal_Type,Item_Name,Price'' @ [newline]
     @ js ''2024-01-01, Lunch ,Rice,50'' @ [0x0D, newline]
     @ js ''2024-01-02,Breakfast,Idli,30'' @ [newline]"

text \<open>The value the comparator gives a category: its position in the list, or 999.\<close>

definition priority :: "jsstring \<Rightarrow> int" where
  "priority k = (let i = indexOf mealTypeOrder k in if i = - 1 then 999 else i)"

text \<open>Two records of one day, the first of category \<open>Unknown\<close>, the second of category \<open>1\<close>.\<close>

definition numbered_items :: "MenuItem list" where
  "numbered_items =
     [\<lparr>Date = Str (js ''2024-01-01''), Meal_Type = Str (js ''Unknown''),
        Item_Name = Str (js ''Tea''), Price = Str (js ''10'')\<rparr>,
      \<lparr>Date = Str (js ''2024-01-01''), Meal_Type = Str (js ''1''),
        Item_Name = Str (js ''Combo''), Price = Str (js ''80'')\<rparr>]"

text \<open>A record of the category \<open>constructor\<close>, and a table that holds it.\<close>

definition constructor_item :: MenuItem where
  "constructor_item =
     \<lparr>Date = Str (js ''2024-01-01''), Meal_Type = Str (js ''constructor''),
      Item_Name = Str (js ''Dosa''), Price = Str (js ''40'')\<rparr>"

definition constructor_menu :: jsstring where
  "constructor_menu =
     js ''Date,Meal_Type,Item_Name,Price'' @ [newline] @ js ''2024-01-01,constructor,Dosa,40''"

text \<open>The records a view shows.\<close>

definition view_items :: "(jsstring \<times> MenuItem list) list \<Rightarrow> MenuItem set" where
  "view_items view = set (concat (map snd view))"

text \<open>
  The two records of \<open>padded_menu\<close>, the state the component starts in, a state left by a
  successful cycle, and three environments: a fetch that succeeds with \<open>padded_menu\<close>, a
  fetch that is rejected a day later, and a fetch that succeeds with \<open>constructor_menu\<close>.
\<close>

definition lunch_item :: MenuItem where
  "lunch_item =
     \<lparr>Date = Str (js ''2024-01-01''), Meal_Type = Str (js ''Lunch''),
      Item_Name = Str (js ''Rice''), Price = Str (js ''50'')\<rparr>"

definition breakfast_item :: MenuItem where
  "breakfast_item =
     \<lparr>Date = Str (js ''2024-01-02''), Meal_Type = Str (js ''Breakfast''),
      Item_Name = Str (js ''Idli''), Price = Str (js ''30'')\<rparr>"

definition initial_state :: app_state where
  "initial_state = \<lparr>menuItems = [], loading = True, error = None, currentDate = []\<rparr>"

definition monday_state :: app_state where
  "monday_state =
     \<lparr>menuItems = [lunch_item], loading = False, error = None,
      currentDate = js ''Monday, 1 January 2024''\<rparr>"

definition monday_env :: environment where
  "monday_env =
     \<lparr>fetched = Response True (Body padded_menu), today = js ''2024-01-01'',
      dateLabel = js ''Monday, 1 January 2024''\<rparr>"

definition offline_env :: environment where
  "offline_env =
     \<lparr>fetched = Rejected (Error (js ''Failed to fetch'')), today = js ''2024-01-02'',
      dateLabel = js ''Tuesday, 2 January 2024''\<rparr>"

definition constructor_env :: environment where
  "constructor_env =
     \<lparr>fetched = Response True (Body constructor_menu), today = js ''2024-01-01'',
      dateLabel = js ''Monday, 1 January 2024''\<rparr>"


section \<open>Properties of the parser\<close>

lemma split_from_nonempty: "split_from sep cur s \<noteq> []"
  by (induction s arbitrary: cur) auto

lemma split_nonempty: "split sep s \<noteq> []"
  by (simp add: split_def split_from_nonempty)

lemma split_from_no_sep: "sep \<notin> set s \<Longrightarrow> split_from sep cur s = [cur @ s]"
  by (induction s arbitrary: cur) auto

lemma split_no_sep: "sep \<notin> set s \<Longrightarrow> split sep s = [s]"
  by (simp add: split_def split_from_no_sep)

lemma dropWhile_all: "list_all P xs \<Longrightarrow> dropWhile P (xs @ ys) = dropWhile P ys"
  by (induction xs) auto

lemma dropWhile_all_Nil: "list_all P xs \<Longrightarrow> dropWhile P xs = []"
  by (induction xs) auto

lemma trim_whitespace: "list_all is_ws w \<Longrightarrow> trim w = []"
  unfolding trim_def by (simp only: dropWhile_all_Nil rev.simps dropWhile.simps)

lemma trim_surrounded:
  assumes "list_all is_ws pre" and "list_all is_ws post"
  shows "trim (pre @ s @ post) = trim s"
proof (cases "list_all is_ws s")
  case True
  then have "list_all is_ws (pre @ s @ post)"
    using assms by (auto simp: list_all_iff)
  then show ?thesis
    using True by (simp add: trim_whitespace)
next
  case False
  have post: "list_all is_ws (rev post)"
    using assms(2) by (simp add: list_all_iff)
  from False obtain x where "x \<in> set s" "\<not> is_ws x"
    by (auto simp: list_all_iff)
  then have "dropWhile is_ws (s @ post) = dropWhile is_ws s @ post"
    by (simp add: dropWhile_append1)
  then have "trim (pre @ s @ post) = rev (dropWhile is_ws (rev post @ rev (dropWhile is_ws s)))"
    using assms(1) by (simp add: trim_def dropWhile_all)
  also have "\<dots> = rev (dropWhile is_ws (rev (dropWhile is_ws s)))"
    using post by (simp add: dropWhile_all)
  finally show ?thesis
    by (simp add: trim_def)
qed

lemma trim_trimmed: "trimmed (Str (trim s))"
proof (cases "trim s = []")
  case True
  then show ?thesis by simp
next
  case False
  let ?d = "dropWhile is_ws s"
  let ?r = "dropWhile is_ws (rev ?d)"
  from False have r: "?r \<noteq> []"
    by (simp add: trim_def)
  then have rear: "\<not> is_ws (hd ?r)"
    by (rule hd_dropWhile)
  have d: "?d \<noteq> []"
    using r by (metis dropWhile.simps(1) rev.simps(1))
  then have front: "\<not> is_ws (hd ?d)"
    by (rule hd_dropWhile)
  have "last (trim s) = hd ?r"
    using r by (simp add: trim_def last_rev)
  moreover have "hd (trim s) = hd ?d"
  proof -
    have "?d = rev ?r @ rev (takeWhile is_ws (rev ?d))"
      by (metis rev_append rev_rev_ident takeWhile_dropWhile_id)
    then have "hd ?d = hd (rev ?r)"
      using r by (metis hd_append2 rev_is_Nil_conv)
    then show ?thesis
      by (simp add: trim_def)
  qed
  ultimately show ?thesis
    using rear front False by simp
qed

lemma at_trimmed: "trimmed (at (map trim values) i)"
  using trim_trimmed by (simp add: at_def)

lemma parse_rows_map_filter:
  "parse_rows hn rows data = data @ map row_item (filter (\<lambda>l. field_count l = hn) rows)"
  by (induction rows arbitrary: data) (simp_all add: Let_def row_item_def field_count_def)

lemma csv_lines_split: "csv_lines csv = header_line csv # data_rows csv"
  using split_nonempty [of newline "trim csv"]
  by (simp add: csv_lines_def header_line_def data_rows_def split: list.splits)

lemma parseCSVToJSON_eq:
  "parseCSVToJSON csv =
     Inr (map row_item (filter (\<lambda>l. field_count l = field_count (header_line csv)) (data_rows csv)))"
proof -
  have "split newline (trim csv) = header_line csv # data_rows csv"
    using csv_lines_split [of csv] by (simp add: csv_lines_def)
  then show ?thesis
    by (simp add: parseCSVToJSON_def parse_rows_map_filter field_count_def)
qed

text \<open>
  Claim C10. The parser is total: on every input string it returns a list of records and
  throws nothing. Splitting any string gives at least one piece, so the header line is
  always there. The empty string, a string of whitespace only and a string whose trimmed
  text is a header line alone give the empty list. Whitespace around the whole input is
  stripped before the lines are split, so it changes nothing.
\<close>

theorem parseCSVToJSON_total:
  "(\<exists>data. parseCSVToJSON csv = Inr data)
   \<and> split sep s \<noteq> []
   \<and> csv_lines csv \<noteq> []
   \<and> parseCSVToJSON [] = Inr []
   \<and> (list_all is_ws w \<longrightarrow> parseCSVToJSON w = Inr [])
   \<and> (newline \<notin> set (trim h) \<longrightarrow> parseCSVToJSON h = Inr [])
   \<and> (list_all is_ws pre \<and> list_all is_ws post \<longrightarrow>
        parseCSVToJSON (pre @ csv @ post) = parseCSVToJSON csv)"
proof -
  have total: "\<exists>data. parseCSVToJSON csv = Inr data"
    by (simp add: parseCSVToJSON_eq)
  have lines: "csv_lines csv \<noteq> []"
    by (simp add: csv_lines_split)
  have header_only: "parseCSVToJSON h = Inr []" if "newline \<notin> set (trim h)" for h
    using that by (simp add: parseCSVToJSON_def split_no_sep)
  have blank: "parseCSVToJSON w = Inr []" if "list_all is_ws w" for w
    using that header_only [of w] by (simp add: trim_whitespace)
  have around: "parseCSVToJSON (pre @ csv @ post) = parseCSVToJSON csv"
    if "list_all is_ws pre" "list_all is_ws post"
    using that by (simp add: parseCSVToJSON_def trim_surrounded)
  show ?thesis
    using total lines split_nonempty [of sep s] header_only [of h] blank [of w] blank [of "[]"] around
    by simp
qed

theorem parseCSVToJSON_total_witness:
  "list_all is_ws (js ''  '') \<and> parseCSVToJSON (js ''  '') = Inr []
   \<and> newline \<notin> set (trim (js ''Date,Meal_Type,Item_Name,Price''))
   \<and> parseCSVToJSON (js ''Date,Meal_Type,Item_Name,Price'') = Inr []
   \<and> parseCSVToJSON ([newline] @ js ''a,b'' @ [newline] @ js ''c,d'' @ [newline, newline])
       = parseCSVToJSON (js ''a,b'' @ [newline] @ js ''c,d'')"
proof -
  have ws: "list_all is_ws (js ''  '')"
    by (simp add: js_def is_ws_def)
  have nl: "newline \<notin> set (trim (js ''Date,Meal_Type,Item_Name,Price''))"
    by (simp add: js_def trim_def is_ws_def newline_def)
  have around: "list_all is_ws [newline] \<and> list_all is_ws [newline, newline]"
    by (simp add: is_ws_def newline_def)
  show ?thesis
    using ws nl around
      parseCSVToJSON_total [where w = "js ''  ''" and h = "js ''Date,Meal_Type,Item_Name,Price''"
        and pre = "[newline]" and post = "[newline, newline]"
        and csv = "js ''a,b'' @ [newline] @ js ''c,d''"]
    by simp
qed

text \<open>
  Claim C1. When every data row (every line after the first, of the lines the parser
  splits the trimmed text into) has as many fields as the header line, the parser returns
  one record per data row, in the order of the rows. The record of a row holds the first
  four fields of the row in the order date, category, name, price, each trimmed; a field
  the row does not have is \<open>undefined\<close>.
\<close>

theorem parseCSVToJSON_wellformed:
  assumes "\<forall>row \<in> set (data_rows csv). field_count row = field_count (header_line csv)"
  shows "parseCSVToJSON csv =
           Inr (map (\<lambda>row. \<lparr>Date = at (map trim (split comma row)) 0,
                             Meal_Type = at (map trim (split comma row)) 1,
                             Item_Name = at (map trim (split comma row)) 2,
                             Price = at (map trim (split comma row)) 3\<rparr>) (data_rows csv))
         \<and> (\<forall>row \<in> set (data_rows csv). 4 \<le> field_count row \<longrightarrow>
               row_item row = \<lparr>Date = Str (trim (split comma row ! 0)),
                                Meal_Type = Str (trim (split comma row ! 1)),
                                Item_Name = Str (trim (split comma row ! 2)),
                                Price = Str (trim (split comma row ! 3))\<rparr>)
         \<and> (\<forall>data. parseCSVToJSON csv = Inr data \<longrightarrow>
               length data = length (data_rows csv)
               \<and> (\<forall>item \<in> set data. trimmed (Date item) \<and> trimmed (Meal_Type item)
                     \<and> trimmed (Item_Name item) \<and> trimmed (Price item)))"
proof -
  have all: "filter (\<lambda>l. field_count l = field_count (header_line csv)) (data_rows csv) = data_rows csv"
    using assms by (simp add: filter_id_conv)
  have eq: "parseCSVToJSON csv = Inr (map row_item (data_rows csv))"
    using all parseCSVToJSON_eq [of csv] by simp
  have fields: "row_item row = \<lparr>Date = at (map trim (split comma row)) 0,
                             Meal_Type = at (map trim (split comma row)) 1,
                             Item_Name = at (map trim (split comma row)) 2,
                             Price = at (map trim (split comma row)) 3\<rparr>" for row
    by (simp add: row_item_def item_of_def)
  have four: "row_item row = \<lparr>Date = Str (trim (split comma row ! 0)),
                                Meal_Type = Str (trim (split comma row ! 1)),
                                Item_Name = Str (trim (split comma row ! 2)),
                                Price = Str (trim (split comma row ! 3))\<rparr>"
    if "4 \<le> field_count row" for row
    using that by (simp add: row_item_def item_of_def at_def field_count_def split_nonempty)
  have trimmed_row: "trimmed (Date (row_item row)) \<and> trimmed (Meal_Type (row_item row))
      \<and> trimmed (Item_Name (row_item row)) \<and> trimmed (Price (row_item row))" for row
    by (simp add: row_item_def item_of_def at_trimmed)
  have first: "parseCSVToJSON csv =
           Inr (map (\<lambda>row. \<lparr>Date = at (map trim (split comma row)) 0,
                             Meal_Type = at (map trim (split comma row)) 1,
                             Item_Name = at (map trim (split comma row)) 2,
                             Price = at (map trim (split comma row)) 3\<rparr>) (data_rows csv))"
    using eq fields by simp
  have third: "\<forall>data. parseCSVToJSON csv = Inr data \<longrightarrow>
               length data = length (data_rows csv)
               \<and> (\<forall>item \<in> set data. trimmed (Date item) \<and> trimmed (Meal_Type item)
                     \<and> trimmed (Item_Name item) \<and> trimmed (Price item))"
    using eq trimmed_row by auto
  show ?thesis
    using first four third by blast
qed

lemma padded_menu_lines:
  "header_line padded_menu = js ''Date,Meal_Type,Item_Name,Price''"
  "data_rows padded_menu = [js ''2024-01-01, Lunch ,Rice,50'' @ [0x0D], js ''2024-01-02,Breakfast,Idli,30'']"
  by (simp_all add: padded_menu_def header_line_def data_rows_def csv_lines_def js_def trim_def
      is_ws_def newline_def split_def)

theorem parseCSVToJSON_wellformed_witness:
  "map field_count (data_rows padded_menu) = [4, 4]
   \<and> field_count (header_line padded_menu) = 4
   \<and> parseCSVToJSON padded_menu =
       Inr [\<lparr>Date = Str (js ''2024-01-01''), Meal_Type = Str (js ''Lunch''),
              Item_Name = Str (js ''Rice''), Price = Str (js ''50'')\<rparr>,
            \<lparr>Date = Str (js ''2024-01-02''), Meal_Type = Str (js ''Breakfast''),
              Item_Name = Str (js ''Idli''), Price = Str (js ''30'')\<rparr>]"
proof -
  have hyp: "\<forall>row \<in> set (data_rows padded_menu). field_count row = field_count (header_line padded_menu)"
    by (simp add: padded_menu_lines field_count_def split_def js_def comma_def)
  have counts: "map field_count (data_rows padded_menu) = [4, 4]"
    "field_count (header_line padded_menu) = 4"
    by (simp_all add: padded_menu_lines field_count_def split_def js_def comma_def)
  show ?thesis
    using counts parseCSVToJSON_wellformed [OF hyp]
    by (simp add: padded_menu_lines split_def js_def comma_def trim_def is_ws_def at_def)
qed

text \<open>
  Claim C4. On every input the parser returns, and what it returns are the records of the
  data rows that have as many fields as the header line, in order: a row with fewer or
  more fields leaves no record, and the output is the one the other rows give.
\<close>

theorem malformed_rows_dropped:
  "parseCSVToJSON csv =
     Inr (map row_item (filter (\<lambda>row. field_count row = field_count (header_line csv)) (data_rows csv)))
   \<and> (\<forall>before bad after.
         data_rows csv = before @ bad # after \<and> field_count bad \<noteq> field_count (header_line csv) \<longrightarrow>
         parseCSVToJSON csv =
           Inr (map row_item
                 (filter (\<lambda>row. field_count row = field_count (header_line csv)) (before @ after))))"
  by (simp add: parseCSVToJSON_eq)

lemma scenarioA_lines:
  "header_line scenarioA = js ''Date,Meal_Type,Item_Name,Price''"
  "data_rows scenarioA = [js ''2024-01-01,Lunch,Rice,50'', js ''2024-01-01,Breakfast,Idli,30'', js ''badrow,onlytwo'']"
  by (simp_all add: scenarioA_def header_line_def data_rows_def csv_lines_def js_def trim_def
      is_ws_def newline_def split_def)

theorem malformed_rows_dropped_witness:
  "data_rows scenarioA = [js ''2024-01-01,Lunch,Rice,50'', js ''2024-01-01,Breakfast,Idli,30''] @ js ''badrow,onlytwo'' # []
   \<and> field_count (js ''badrow,onlytwo'') \<noteq> field_count (header_line scenarioA)
   \<and> parseCSVToJSON scenarioA =
       Inr [\<lparr>Date = Str (js ''2024-01-01''), Meal_Type = Str (js ''Lunch''),
              Item_Name = Str (js ''Rice''), Price = Str (js ''50'')\<rparr>,
            \<lparr>Date = Str (js ''2024-01-01''), Meal_Type = Str (js ''Breakfast''),
              Item_Name = Str (js ''Idli''), Price = Str (js ''30'')\<rparr>]"
proof -
  have bad: "field_count (js ''badrow,onlytwo'') \<noteq> field_count (header_line scenarioA)"
    by (simp add: scenarioA_lines field_count_def split_def js_def comma_def)
  have good: "filter (\<lambda>row. field_count row = field_count (header_line scenarioA))
                [js ''2024-01-01,Lunch,Rice,50'', js ''2024-01-01,Breakfast,Idli,30'']
              = [js ''2024-01-01,Lunch,Rice,50'', js ''2024-01-01,Breakfast,Idli,30'']"
    by (simp add: scenarioA_lines field_count_def split_def js_def comma_def)
  have items: "map row_item [js ''2024-01-01,Lunch,Rice,50'', js ''2024-01-01,Breakfast,Idli,30'']
      = [\<lparr>Date = Str (js ''2024-01-01''), Meal_Type = Str (js ''Lunch''),
              Item_Name = Str (js ''Rice''), Price = Str (js ''50'')\<rparr>,
            \<lparr>Date = Str (js ''2024-01-01''), Meal_Type = Str (js ''Breakfast''),
              Item_Name = Str (js ''Idli''), Price = Str (js ''30'')\<rparr>]"
    by (simp add: row_item_def item_of_def split_def js_def comma_def trim_def is_ws_def at_def)
  have rows: "data_rows scenarioA =
      [js ''2024-01-01,Lunch,Rice,50'', js ''2024-01-01,Breakfast,Idli,30''] @ js ''badrow,onlytwo'' # []"
    by (simp add: scenarioA_lines)
  have "parseCSVToJSON scenarioA =
           Inr (map row_item
                 (filter (\<lambda>row. field_count row = field_count (header_line scenarioA))
                   ([js ''2024-01-01,Lunch,Rice,50'', js ''2024-01-01,Breakfast,Idli,30''] @ [])))"
    using malformed_rows_dropped [of scenarioA, THEN conjunct2, rule_format, OF conjI [OF rows bad]] .
  then show ?thesis
    using bad good items scenarioA_lines(2) by simp
qed

section \<open>Properties of the grouping\<close>

lemma map_of_None_iff: "map_of obj k = None \<longleftrightarrow> k \<notin> set (map fst obj)"
  by (simp add: map_of_eq_None_iff)

lemma set_property_new: "k \<notin> set (map fst obj) \<Longrightarrow> set_property k v obj = obj @ [(k, v)]"
  by (induction obj) auto

lemma set_property_keys: "k \<in> set (map fst obj) \<Longrightarrow> map fst (set_property k v obj) = map fst obj"
  by (induction obj) auto

lemma set_property_key_set:
  "k \<in> fst ` set obj \<Longrightarrow> fst ` set (set_property k v obj) = fst ` set obj"
  using set_property_keys [of k obj v] by (metis list.set_map)

lemma map_of_set_property:
  "map_of (set_property k v obj) k' = (if k' = k then Some v else map_of obj k')"
  by (induction obj) auto

lemma set_property_last: "set_property k v (obj @ [(k, u)]) = (if k \<in> set (map fst obj) then set_property k v obj @ [(k, u)] else obj @ [(k, v)])"
  by (induction obj) auto

lemma group_item_cases:
  "group_item grouped item =
     (case map_of grouped (category item) of
        Some arr \<Rightarrow> Inr (set_property (category item) (arr @ [item]) grouped)
      | None \<Rightarrow>
          if category item \<in> set object_prototype_keys then Inl TypeError
          else Inr (grouped @ [(category item, [item])]))"
proof (cases "map_of grouped (category item)")
  case None
  then have new: "category item \<notin> set (map fst grouped)"
    by (simp add: map_of_None_iff)
  show ?thesis
  proof (cases "category item \<in> set object_prototype_keys")
    case True
    then show ?thesis
      using None by (simp add: group_item_def category_def [symmetric] get_property_def)
  next
    case False
    have read: "get_property (set_property (category item) [] grouped) (category item) = Own []"
      by (simp add: get_property_def map_of_set_property)
    have "set_property (category item) ([] @ [item]) (set_property (category item) [] grouped)
        = grouped @ [(category item, [item])]"
      using new by (simp add: set_property_new set_property_last)
    then show ?thesis
      using None False read
      by (simp add: group_item_def category_def [symmetric] get_property_def [of grouped])
  qed
next
  case (Some arr)
  then show ?thesis
    by (simp add: group_item_def category_def [symmetric] get_property_def Let_def)
qed

lemma group_items_keys:
  "group_items grouped items = Inr result \<Longrightarrow>
     map fst result =
       map fst grouped @ filter (\<lambda>k. k \<notin> set (map fst grouped)) (first_occurrences (map category items))"
proof (induction items arbitrary: grouped)
  case Nil
  then show ?case by simp
next
  case (Cons item rest)
  show ?case
  proof (cases "map_of grouped (category item)")
    case None
    then have new: "category item \<notin> set (map fst grouped)"
      by (simp add: map_of_None_iff)
    from Cons.prems None
    have run: "group_items (grouped @ [(category item, [item])]) rest = Inr result"
      by (simp add: group_item_cases split: if_splits)
    have "filter (\<lambda>k. k \<notin> set (map fst (grouped @ [(category item, [item])]))) xs
        = filter (\<lambda>k. k \<notin> set (map fst grouped)) (filter (\<lambda>y. y \<noteq> category item) xs)" for xs
      by (induction xs) auto
    then show ?thesis
      using Cons.IH [OF run] new by simp
  next
    case (Some arr)
    then have old: "category item \<in> set (map fst grouped)"
      by (metis map_of_None_iff option.distinct(1))
    from Cons.prems Some
    have run: "group_items (set_property (category item) (arr @ [item]) grouped) rest = Inr result"
      by (simp add: group_item_cases)
    have "filter (\<lambda>k. k \<notin> set (map fst grouped)) (filter (\<lambda>y. y \<noteq> category item) xs)
        = filter (\<lambda>k. k \<notin> set (map fst grouped)) xs" for xs
      using old by (induction xs) auto
    then show ?thesis
      using Cons.IH [OF run] old by (simp add: set_property_keys set_property_key_set)
  qed
qed

lemma group_items_values:
  "group_items grouped items = Inr result \<Longrightarrow>
     map_of result k =
       (case map_of grouped k of
          Some arr \<Rightarrow> Some (arr @ filter (\<lambda>item. category item = k) items)
        | None \<Rightarrow>
            if filter (\<lambda>item. category item = k) items = [] then None
            else Some (filter (\<lambda>item. category item = k) items))"
proof (induction items arbitrary: grouped)
  case Nil
  then show ?case by (simp split: option.splits)
next
  case (Cons item rest)
  show ?case
  proof (cases "map_of grouped (category item)")
    case None
    from Cons.prems None
    have run: "group_items (grouped @ [(category item, [item])]) rest = Inr result"
      by (simp add: group_item_cases split: if_splits)
    show ?thesis
      using Cons.IH [OF run] None
      by (auto simp: map_of_append split: option.splits)
  next
    case (Some arr)
    from Cons.prems Some
    have run: "group_items (set_property (category item) (arr @ [item]) grouped) rest = Inr result"
      by (simp add: group_item_cases)
    show ?thesis
      using Cons.IH [OF run] Some
      by (auto simp: map_of_set_property split: option.splits)
  qed
qed

lemma group_items_distinct:
  "group_items grouped items = Inr result \<Longrightarrow> distinct (map fst grouped) \<Longrightarrow> distinct (map fst result)"
proof (induction items arbitrary: grouped)
  case Nil
  then show ?case by simp
next
  case (Cons item rest)
  show ?case
  proof (cases "map_of grouped (category item)")
    case None
    then have new: "category item \<notin> set (map fst grouped)"
      by (simp add: map_of_None_iff)
    from Cons.prems None
    have run: "group_items (grouped @ [(category item, [item])]) rest = Inr result"
      by (simp add: group_item_cases split: if_splits)
    show ?thesis
      using Cons.IH [OF run] new Cons.prems(2) by simp
  next
    case (Some arr)
    then have old: "category item \<in> set (map fst grouped)"
      by (metis map_of_None_iff option.distinct(1))
    from Cons.prems Some
    have run: "group_items (set_property (category item) (arr @ [item]) grouped) rest = Inr result"
      by (simp add: group_item_cases)
    show ?thesis
      using Cons.IH [OF run] old Cons.prems(2) by (simp add: set_property_keys)
  qed
qed

lemma group_items_returns:
  "\<forall>item \<in> set items. category item \<in> set object_prototype_keys \<longrightarrow> category item \<in> set (map fst grouped)
   \<Longrightarrow> \<exists>result. group_items grouped items = Inr result"
proof (induction items arbitrary: grouped)
  case Nil
  then show ?case by simp
next
  case (Cons item rest)
  show ?case
  proof (cases "map_of grouped (category item)")
    case None
    then have new: "category item \<notin> set (map fst grouped)"
      by (simp add: map_of_None_iff)
    then have ok: "category item \<notin> set object_prototype_keys"
      using Cons.prems by auto
    have "\<exists>result. group_items (grouped @ [(category item, [item])]) rest = Inr result"
      using Cons.prems by (intro Cons.IH) auto
    then show ?thesis
      using None ok by (simp add: group_item_cases)
  next
    case (Some arr)
    then have old: "category item \<in> set (map fst grouped)"
      by (metis map_of_None_iff option.distinct(1))
    have "\<exists>result. group_items (set_property (category item) (arr @ [item]) grouped) rest = Inr result"
      using Cons.prems old by (intro Cons.IH) (auto simp: set_property_keys)
    then show ?thesis
      using Some by (simp add: group_item_cases)
  qed
qed

lemma group_items_throws:
  "item \<in> set items \<Longrightarrow> category item \<in> set object_prototype_keys \<Longrightarrow>
   set (map fst grouped) \<inter> set object_prototype_keys = {} \<Longrightarrow>
   group_items grouped items = Inl TypeError"
proof (induction items arbitrary: grouped)
  case Nil
  then show ?case by simp
next
  case (Cons first rest)
  show ?case
  proof (cases "map_of grouped (category first)")
    case None
    show ?thesis
    proof (cases "category first \<in> set object_prototype_keys")
      case True
      then show ?thesis using None by (simp add: group_item_cases)
    next
      case False
      then have "item \<in> set rest" using Cons.prems by auto
      moreover have "set (map fst (grouped @ [(category first, [first])])) \<inter> set object_prototype_keys = {}"
        using False Cons.prems(3) by auto
      ultimately have "group_items (grouped @ [(category first, [first])]) rest = Inl TypeError"
        using Cons.prems(2) by (intro Cons.IH)
      then show ?thesis using None False by (simp add: group_item_cases)
    qed
  next
    case (Some arr)
    then have old: "category first \<in> set (map fst grouped)"
      by (metis map_of_None_iff option.distinct(1))
    then have "category first \<notin> set object_prototype_keys"
      using Cons.prems(3) by auto
    then have "item \<in> set rest" using Cons.prems by auto
    moreover have "set (map fst (set_property (category first) (arr @ [first]) grouped)) \<inter> set object_prototype_keys = {}"
      using old Cons.prems(3) by (simp add: set_property_keys)
    ultimately have "group_items (set_property (category first) (arr @ [first]) grouped) rest = Inl TypeError"
      using Cons.prems(2) by (intro Cons.IH)
    then show ?thesis using Some by (simp add: group_item_cases)
  qed
qed

section \<open>Properties of the ordering\<close>

lemma insert_sorted_insort_key:
  "(\<And>a b. cmp a b \<le> 0 \<longleftrightarrow> f a \<le> f b) \<Longrightarrow> insert_sorted cmp x ys = insort_key f x ys"
  by (induction ys) auto

lemma array_sort_sort_key:
  assumes "\<And>a b. cmp a b \<le> 0 \<longleftrightarrow> f a \<le> f b"
  shows "array_sort cmp xs = sort_key f xs"
proof -
  have "insert_sorted cmp = insort_key f"
    using insert_sorted_insort_key [of cmp f, OF assms] by (intro ext)
  then show ?thesis
    by (simp add: array_sort_def sort_key_def)
qed

lemma compare_meal_priority: "compare_meal a b = priority a - priority b"
  by (simp add: compare_meal_def priority_def Let_def)

lemma sortedMealTypes_sort_key:
  "sortedMealTypes groupedMenu = sort_key priority (object_keys groupedMenu)"
  unfolding sortedMealTypes_def
  by (rule array_sort_sort_key) (simp add: compare_meal_priority)

lemma priority_cases:
  "priority k =
     (if k = js ''Breakfast'' then 0 else if k = js ''Lunch'' then 1
      else if k = js ''Snacks'' then 2 else if k = js ''Dinner'' then 3 else 999)"
  by (simp add: priority_def indexOf_def mealTypeOrder_def)

lemma priority_listed: "priority k = 999 \<longleftrightarrow> k \<notin> set mealTypeOrder"
  by (simp add: priority_cases mealTypeOrder_def)

lemma insort_key_pass:
  "\<forall>a \<in> set as. f a < f x \<Longrightarrow> insort_key f x (as @ bs) = as @ insort_key f x bs"
  by (induction as) auto

lemma insort_key_front: "\<forall>b \<in> set bs. f x \<le> f b \<Longrightarrow> insort_key f x bs = x # bs"
  by (cases bs) auto

lemma blocks_skip:
  "f x \<notin> set vs \<Longrightarrow>
     concat (map (\<lambda>w. filter (\<lambda>y. f y = w) (x # xs)) vs) = concat (map (\<lambda>w. filter (\<lambda>y. f y = w) xs) vs)"
  by (induction vs) auto

lemma insort_key_blocks:
  fixes f :: "'a \<Rightarrow> 'b::linorder"
  assumes "sorted_wrt (<) vs" and "f x \<in> set vs"
  shows "insort_key f x (concat (map (\<lambda>v. filter (\<lambda>y. f y = v) xs) vs))
         = concat (map (\<lambda>v. filter (\<lambda>y. f y = v) (x # xs)) vs)"
  using assms
proof (induction vs)
  case Nil
  then show ?case by simp
next
  case (Cons v vs)
  show ?case
  proof (cases "f x = v")
    case True
    have later: "\<forall>w \<in> set vs. v < w"
      using Cons.prems(1) by simp
    then have skip: "f x \<notin> set vs"
      using True by auto
    have "\<forall>b \<in> set (filter (\<lambda>y. f y = v) xs @ concat (map (\<lambda>w. filter (\<lambda>y. f y = w) xs) vs)). f x \<le> f b"
      using later True by auto
    then have "insort_key f x (filter (\<lambda>y. f y = v) xs @ concat (map (\<lambda>w. filter (\<lambda>y. f y = w) xs) vs))
        = x # filter (\<lambda>y. f y = v) xs @ concat (map (\<lambda>w. filter (\<lambda>y. f y = w) xs) vs)"
      by (rule insort_key_front)
    then show ?thesis
      unfolding list.map concat.simps blocks_skip [of f x vs xs, OF skip]
      using True by simp
  next
    case False
    then have inside: "f x \<in> set vs"
      using Cons.prems(2) by simp
    then have less: "v < f x"
      using Cons.prems(1) by auto
    have "insort_key f x (filter (\<lambda>y. f y = v) xs @ concat (map (\<lambda>w. filter (\<lambda>y. f y = w) xs) vs))
        = filter (\<lambda>y. f y = v) xs @ insort_key f x (concat (map (\<lambda>w. filter (\<lambda>y. f y = w) xs) vs))"
      using less by (intro insort_key_pass) simp
    moreover have "sorted_wrt (<) vs"
      using Cons.prems(1) by simp
    ultimately show ?thesis
      using False Cons.IH inside by simp
  qed
qed

lemma sort_key_blocks:
  fixes f :: "'a \<Rightarrow> 'b::linorder"
  assumes "sorted_wrt (<) vs" and "\<forall>x \<in> set xs. f x \<in> set vs"
  shows "sort_key f xs = concat (map (\<lambda>v. filter (\<lambda>y. f y = v) xs) vs)"
  using assms(2)
proof (induction xs)
  case Nil
  then show ?case by simp
next
  case (Cons x xs)
  then have "sort_key f (x # xs) = insort_key f x (concat (map (\<lambda>v. filter (\<lambda>y. f y = v) xs) vs))"
    by simp
  then show ?case
    using insort_key_blocks [OF assms(1), of f x xs] Cons.prems by simp
qed

lemma filter_eq_distinct:
  "distinct xs \<Longrightarrow> filter (\<lambda>y. y = a) xs = (if a \<in> set xs then [a] else [])"
  by (induction xs) auto

lemma sort_key_priority:
  assumes "distinct ks"
  shows "sort_key priority ks =
           filter (\<lambda>k. k \<in> set ks) mealTypeOrder @ filter (\<lambda>k. k \<notin> set mealTypeOrder) ks"
proof -
  have ranks: "\<forall>k \<in> set ks. priority k \<in> set [0, 1, 2, 3, 999]"
    by (simp add: priority_cases)
  have listed: "filter (\<lambda>y. priority y = 0) ks = filter (\<lambda>y. y = js ''Breakfast'') ks"
    "filter (\<lambda>y. priority y = 1) ks = filter (\<lambda>y. y = js ''Lunch'') ks"
    "filter (\<lambda>y. priority y = 2) ks = filter (\<lambda>y. y = js ''Snacks'') ks"
    "filter (\<lambda>y. priority y = 3) ks = filter (\<lambda>y. y = js ''Dinner'') ks"
    by (rule filter_cong; simp add: priority_cases js_def)+
  have unlisted: "filter (\<lambda>y. priority y = 999) ks = filter (\<lambda>k. k \<notin> set mealTypeOrder) ks"
    by (simp add: priority_listed)
  have "sort_key priority ks = concat (map (\<lambda>v. filter (\<lambda>y. priority y = v) ks) [0, 1, 2, 3, 999])"
    using ranks by (intro sort_key_blocks) simp_all
  then show ?thesis
    using assms by (simp add: listed unlisted filter_eq_distinct mealTypeOrder_def)
qed

lemma object_keys_set: "set (object_keys obj) = set (map fst obj)"
  by (auto simp: object_keys_def Let_def)

lemma object_keys_distinct: "distinct (map fst obj) \<Longrightarrow> distinct (object_keys obj)"
  by (auto simp: object_keys_def Let_def)

lemma mealTypeOrder_no_index: "k \<in> set mealTypeOrder \<Longrightarrow> array_index k = None"
  by (auto simp: mealTypeOrder_def array_index_def js_def is_digit_def)

lemma object_keys_unlisted:
  "filter (\<lambda>k. k \<notin> set mealTypeOrder) (object_keys obj) =
     sort_key index_value (filter (\<lambda>k. k \<notin> set mealTypeOrder \<and> array_index k \<noteq> None) (map fst obj))
     @ filter (\<lambda>k. k \<notin> set mealTypeOrder \<and> array_index k = None) (map fst obj)"
proof -
  have "filter (\<lambda>k. k \<notin> set mealTypeOrder) (filter (\<lambda>k. array_index k \<noteq> None) ks)
      = filter (\<lambda>k. k \<notin> set mealTypeOrder \<and> array_index k \<noteq> None) ks" for ks
    by (induction ks) auto
  moreover have "filter (\<lambda>k. k \<notin> set mealTypeOrder) (filter (\<lambda>k. array_index k = None) ks)
      = filter (\<lambda>k. k \<notin> set mealTypeOrder \<and> array_index k = None) ks" for ks
    by (induction ks) auto
  ultimately show ?thesis
    by (simp add: object_keys_def Let_def filter_sort)
qed

lemma sortedMealTypes_order:
  assumes "distinct (map fst obj)"
  shows "sortedMealTypes obj =
           filter (\<lambda>k. k \<in> set (map fst obj)) mealTypeOrder
           @ sort_key index_value
               (filter (\<lambda>k. k \<notin> set mealTypeOrder \<and> array_index k \<noteq> None) (map fst obj))
           @ filter (\<lambda>k. k \<notin> set mealTypeOrder \<and> array_index k = None) (map fst obj)"
proof -
  have "sortedMealTypes obj =
      filter (\<lambda>k. k \<in> set (object_keys obj)) mealTypeOrder
      @ filter (\<lambda>k. k \<notin> set mealTypeOrder) (object_keys obj)"
    using object_keys_distinct [OF assms]
    by (simp only: sortedMealTypes_sort_key sort_key_priority)
  then show ?thesis
    by (simp only: object_keys_set object_keys_unlisted)
qed

lemma groupByMealType_keys:
  assumes "groupByMealType items = Inr groupedMenu"
  shows "map fst groupedMenu = first_occurrences (map category items)"
    and "distinct (map fst groupedMenu)"
  using assms group_items_keys [of "[]" items groupedMenu]
    group_items_distinct [of "[]" items groupedMenu]
  by (simp_all add: groupByMealType_def)

lemma set_first_occurrences: "set (first_occurrences xs) = set xs"
  by (induction xs) auto

text \<open>
  Claim C3, as amended. The categories of the grouped records are ordered: first those of
  the priority list (Breakfast, Lunch, Snacks, Dinner), in the order of that list; then
  the other categories that are array-index strings, in ascending numeric order; then the
  remaining categories, in the order in which the records first show them. Own keys
  Dinner, Breakfast, Snacks, Unknown, Lunch, created in that order, sort to Breakfast,
  Lunch, Snacks, Dinner, Unknown.
\<close>

theorem sortedMealTypes_priority_order:
  assumes "groupByMealType items = Inr groupedMenu"
  shows "sortedMealTypes groupedMenu =
           filter (\<lambda>k. k \<in> set (map category items)) mealTypeOrder
           @ sort_key index_value
               (filter (\<lambda>k. k \<notin> set mealTypeOrder \<and> array_index k \<noteq> None)
                  (first_occurrences (map category items)))
           @ filter (\<lambda>k. k \<notin> set mealTypeOrder \<and> array_index k = None)
               (first_occurrences (map category items))
         \<and> sorted (map index_value (sort_key index_value
               (filter (\<lambda>k. k \<notin> set mealTypeOrder \<and> array_index k \<noteq> None)
                  (first_occurrences (map category items)))))
         \<and> sortedMealTypes [(js ''Dinner'', a), (js ''Breakfast'', b), (js ''Snacks'', c),
                             (js ''Unknown'', d), (js ''Lunch'', e)]
             = [js ''Breakfast'', js ''Lunch'', js ''Snacks'', js ''Dinner'', js ''Unknown'']"
proof -
  have keys: "map fst groupedMenu = first_occurrences (map category items)"
    and dist: "distinct (map fst groupedMenu)"
    using groupByMealType_keys [OF assms] by simp_all
  have general: "sortedMealTypes groupedMenu =
           filter (\<lambda>k. k \<in> set (map category items)) mealTypeOrder
           @ sort_key index_value
               (filter (\<lambda>k. k \<notin> set mealTypeOrder \<and> array_index k \<noteq> None)
                  (first_occurrences (map category items)))
           @ filter (\<lambda>k. k \<notin> set mealTypeOrder \<and> array_index k = None)
               (first_occurrences (map category items))"
    using sortedMealTypes_order [OF dist] set_first_occurrences [of "map category items"]
    by (simp only: keys)
  have unknown: "array_index (js ''Unknown'') = None"
    by (simp add: array_index_def js_def is_digit_def)
  have "distinct (map fst [(js ''Dinner'', a), (js ''Breakfast'', b), (js ''Snacks'', c),
                             (js ''Unknown'', d), (js ''Lunch'', e)])"
    by (simp add: js_def)
  from sortedMealTypes_order [OF this]
  have example: "sortedMealTypes [(js ''Dinner'', a), (js ''Breakfast'', b), (js ''Snacks'', c),
                             (js ''Unknown'', d), (js ''Lunch'', e)]
             = [js ''Breakfast'', js ''Lunch'', js ''Snacks'', js ''Dinner'', js ''Unknown'']"
    using unknown by (simp add: mealTypeOrder_def js_def)
  show ?thesis
    using general example by simp
qed

lemma numbered_items_grouped:
  "groupByMealType numbered_items = Inr [(js ''Unknown'', [numbered_items ! 0]), (js ''1'', [numbered_items ! 1])]"
  by (simp add: groupByMealType_def numbered_items_def group_item_cases category_def
      object_prototype_keys_def js_def)

lemma array_index_1: "array_index (js ''1'') = Some 1"
  by (simp add: array_index_def js_def is_digit_def digits_value_def)

lemma array_index_Unknown: "array_index (js ''Unknown'') = None"
  by (simp add: array_index_def js_def is_digit_def)

theorem sortedMealTypes_priority_order_witness:
  "groupByMealType numbered_items = Inr [(js ''Unknown'', [numbered_items ! 0]), (js ''1'', [numbered_items ! 1])]
   \<and> sortedMealTypes [(js ''Unknown'', [numbered_items ! 0]), (js ''1'', [numbered_items ! 1])]
       = [js ''1'', js ''Unknown'']"
proof -
  have cats: "map category numbered_items = [js ''Unknown'', js ''1'']"
    by (simp add: numbered_items_def category_def)
  have unlisted: "js ''Unknown'' \<notin> set mealTypeOrder" "js ''1'' \<notin> set mealTypeOrder"
    by (simp_all add: mealTypeOrder_def js_def)
  show ?thesis
    using sortedMealTypes_priority_order [OF numbered_items_grouped, THEN conjunct1] unlisted
      numbered_items_grouped array_index_1 array_index_Unknown
    by (simp add: cats mealTypeOrder_def js_def)
qed

text \<open>
  The claim as the spec states it fails on these records: \<open>Unknown\<close> is met before \<open>1\<close>,
  and \<open>1\<close> is displayed before \<open>Unknown\<close>.
\<close>

theorem first_encounter_order_counterexample:
  "groupByMealType numbered_items = Inr [(js ''Unknown'', [numbered_items ! 0]), (js ''1'', [numbered_items ! 1])]
   \<and> first_occurrences (map category numbered_items) = [js ''Unknown'', js ''1'']
   \<and> js ''Unknown'' \<notin> set mealTypeOrder \<and> js ''1'' \<notin> set mealTypeOrder
   \<and> sortedMealTypes [(js ''Unknown'', [numbered_items ! 0]), (js ''1'', [numbered_items ! 1])]
       = [js ''1'', js ''Unknown'']"
proof -
  have cats: "first_occurrences (map category numbered_items) = [js ''Unknown'', js ''1'']"
    by (simp add: numbered_items_def category_def js_def)
  have unlisted: "js ''Unknown'' \<notin> set mealTypeOrder" "js ''1'' \<notin> set mealTypeOrder"
    by (simp_all add: mealTypeOrder_def js_def)
  have "distinct (map fst [(js ''Unknown'', [numbered_items ! 0]), (js ''1'', [numbered_items ! 1])])"
    by (simp add: js_def)
  from sortedMealTypes_order [OF this]
  have "sortedMealTypes [(js ''Unknown'', [numbered_items ! 0]), (js ''1'', [numbered_items ! 1])]
       = [js ''1'', js ''Unknown'']"
    using unlisted array_index_1 array_index_Unknown by (simp add: mealTypeOrder_def js_def)
  then show ?thesis
    using cats unlisted numbered_items_grouped by simp
qed

section \<open>Properties of the view\<close>

lemma groupByMealType_values:
  assumes "groupByMealType items = Inr groupedMenu"
  shows "map_of groupedMenu k =
           (if filter (\<lambda>item. category item = k) items = [] then None
            else Some (filter (\<lambda>item. category item = k) items))"
  using assms group_items_values [of "[]" items groupedMenu k]
  by (simp add: groupByMealType_def)

lemma groupByMealType_returns:
  assumes "\<forall>item \<in> set items. category item \<notin> set object_prototype_keys"
  shows "\<exists>groupedMenu. groupByMealType items = Inr groupedMenu"
  using assms group_items_returns [of items "[]"]
  by (simp add: groupByMealType_def)

lemma groupByMealType_throws:
  assumes "item \<in> set items" and "category item \<in> set object_prototype_keys"
  shows "groupByMealType items = Inl TypeError"
  using assms group_items_throws [of item items "[]"]
  by (simp add: groupByMealType_def)

lemma sections_own:
  "\<forall>k \<in> set ks. map_of groupedMenu k = Some (f k) \<Longrightarrow>
     sections groupedMenu ks = Inr (map (\<lambda>k. (k, f k)) ks)"
  by (induction ks) (simp_all add: get_property_def)

lemma sortedMealTypes_set:
  "set (sortedMealTypes groupedMenu) = set (map fst groupedMenu)"
  by (simp add: sortedMealTypes_sort_key object_keys_set)

lemma menuView_groups:
  assumes "groupByMealType items = Inr groupedMenu"
  shows "menuView items =
           Inr (map (\<lambda>k. (k, filter (\<lambda>item. category item = k) items)) (sortedMealTypes groupedMenu))"
proof -
  have keys: "set (sortedMealTypes groupedMenu) = set (map category items)"
    using groupByMealType_keys(1) [OF assms]
    by (simp only: sortedMealTypes_set set_first_occurrences)
  have "\<forall>k \<in> set (sortedMealTypes groupedMenu).
      map_of groupedMenu k = Some (filter (\<lambda>item. category item = k) items)"
  proof
    fix k
    assume "k \<in> set (sortedMealTypes groupedMenu)"
    then obtain item where "item \<in> set items" "category item = k"
      using keys by auto
    then have "filter (\<lambda>item. category item = k) items \<noteq> []"
      by (auto simp: filter_empty_conv)
    then show "map_of groupedMenu k = Some (filter (\<lambda>item. category item = k) items)"
      by (simp add: groupByMealType_values [OF assms])
  qed
  then have "sections groupedMenu (sortedMealTypes groupedMenu) =
      Inr (map (\<lambda>k. (k, filter (\<lambda>item. category item = k) items)) (sortedMealTypes groupedMenu))"
    by (rule sections_own)
  then show ?thesis
    using assms by (simp add: menuView_def)
qed

lemma menuView_returns:
  "menuView items = Inr view \<Longrightarrow> \<exists>groupedMenu. groupByMealType items = Inr groupedMenu"
  by (cases "groupByMealType items") (simp_all add: menuView_def)

lemma menuView_items:
  assumes "menuView items = Inr view"
  shows "view_items view = set items"
proof -
  obtain groupedMenu where grouped: "groupByMealType items = Inr groupedMenu"
    using menuView_returns [OF assms] by blast
  have keys: "set (sortedMealTypes groupedMenu) = set (map category items)"
    using groupByMealType_keys(1) [OF grouped]
    by (simp only: sortedMealTypes_set set_first_occurrences)
  have "view = map (\<lambda>k. (k, filter (\<lambda>item. category item = k) items)) (sortedMealTypes groupedMenu)"
    using menuView_groups [OF grouped] assms by simp
  then have "view_items view = (\<Union>k \<in> set (sortedMealTypes groupedMenu). {item \<in> set items. category item = k})"
    by (auto simp: view_items_def)
  then show ?thesis
    using keys by auto
qed

text \<open>
  Claim C7. The code groups a list of records by category, each group in the order of
  the list, unless a category is the name of a property of \<open>Object.prototype\<close>: for the
  one record of category \<open>constructor\<close> the read \<open>grouped[item.Meal_Type]\<close> gives the
  inherited function, no array is stored, and \<open>push\<close> throws a \<open>TypeError\<close>. The table
  that holds this record for its day has no view.
\<close>

theorem groupByMealType_constructor_throws:
  "groupByMealType [constructor_item] = Inl TypeError
   \<and> parseCSVToJSON constructor_menu = Inr [constructor_item]
   \<and> pipeline constructor_menu (js ''2024-01-01'') = Inl TypeError"
proof -
  have key: "category constructor_item \<in> set object_prototype_keys"
    by (simp add: constructor_item_def category_def object_prototype_keys_def)
  have thrown: "groupByMealType [constructor_item] = Inl TypeError"
    using groupByMealType_throws [of constructor_item "[constructor_item]"] key by simp
  have parsed: "parseCSVToJSON constructor_menu = Inr [constructor_item]"
    by (simp add: parseCSVToJSON_def constructor_menu_def constructor_item_def js_def trim_def
        is_ws_def newline_def comma_def split_def item_of_def at_def)
  have "todaysMenu [constructor_item] (js ''2024-01-01'') = [constructor_item]"
    by (simp add: todaysMenu_def constructor_item_def)
  then show ?thesis
    using thrown parsed by (simp add: pipeline_def menuView_def)
qed

text \<open>
  What holds of the grouping: when no category is the name of a property of
  \<open>Object.prototype\<close>, the grouping returns, its keys are the categories in the order of
  their first occurrence, and the group of a category holds the records of that category
  in the order of the list.
\<close>

lemma groupByMealType_partition:
  assumes "\<forall>item \<in> set items. category item \<notin> set object_prototype_keys"
  shows "\<exists>groupedMenu. groupByMealType items = Inr groupedMenu
           \<and> map fst groupedMenu = first_occurrences (map category items)
           \<and> (\<forall>item \<in> set items.
                 map_of groupedMenu (category item) =
                   Some (filter (\<lambda>other. category other = category item) items))"
proof -
  obtain groupedMenu where grouped: "groupByMealType items = Inr groupedMenu"
    using groupByMealType_returns [OF assms] by blast
  have "map_of groupedMenu (category item) =
      Some (filter (\<lambda>other. category other = category item) items)" if "item \<in> set items" for item
  proof -
    have "filter (\<lambda>other. category other = category item) items \<noteq> []"
      using that by (auto simp: filter_empty_conv)
    then show ?thesis
      by (simp add: groupByMealType_values [OF grouped])
  qed
  then show ?thesis
    using grouped groupByMealType_keys(1) [OF grouped] by blast
qed

text \<open>
  What holds of the filter: the records it keeps are the records whose date is the string
  \<open>today\<close>, and no other. So it is for the records a refresh cycle stores from a
  successful fetch, and for the records of the view built from them, when the grouping
  returns and there is a view.
\<close>

lemma todays_records_only:
  "(item \<in> set (todaysMenu records day) \<longleftrightarrow> item \<in> set records \<and> Date item = Str day)
   \<and> (fetched env = Response True (Body csv) \<and> parseCSVToJSON csv = Inr records \<longrightarrow>
        (item \<in> set (menuItems (fst (fetchMenuData s env)))
           \<longleftrightarrow> item \<in> set records \<and> Date item = Str (today env)))
   \<and> (menuView (todaysMenu records day) = Inr view \<longrightarrow>
        (item \<in> view_items view \<longleftrightarrow> item \<in> set records \<and> Date item = Str day))"
proof -
  have kept: "item \<in> set (todaysMenu records day) \<longleftrightarrow> item \<in> set records \<and> Date item = Str day"
    for day
    by (simp add: todaysMenu_def)
  have stored: "menuItems (fst (fetchMenuData s env)) = todaysMenu records (today env)"
    if "fetched env = Response True (Body csv)" "parseCSVToJSON csv = Inr records"
    using that by (simp add: fetchMenuData_def try_block_def)
  have shown: "view_items view = set (todaysMenu records day)"
    if "menuView (todaysMenu records day) = Inr view"
    using that by (rule menuView_items)
  show ?thesis
    using kept stored shown by auto
qed

section \<open>Properties of the refresh cycle\<close>

lemma fetchMenuData_success:
  assumes "try_block env = Inr (todays, label)"
  shows "fetchMenuData s env =
           (\<lparr>menuItems = todays, loading = False, error = None, currentDate = label\<rparr>, [])"
  using assms by (simp add: fetchMenuData_def)

lemma fetchMenuData_failure:
  assumes "try_block env = Inl cause"
  shows "fetchMenuData s env =
           (\<lparr>menuItems = menuItems s, loading = False, error = Some error_message,
             currentDate = currentDate s\<rparr>, [cause])"
  using assms by (simp add: fetchMenuData_def)

lemma try_block_body:
  assumes "fetched env = Response True (Body csv)"
  shows "try_block env =
           (case parseCSVToJSON csv of
              Inl e \<Rightarrow> Inl e
            | Inr data \<Rightarrow> Inr (todaysMenu data (today env), dateLabel env))"
  using assms by (simp add: try_block_def)

lemma error_message_truthy: "error_message \<noteq> []"
  by (simp add: error_message_def js_def)

lemma padded_menu_parsed: "parseCSVToJSON padded_menu = Inr [lunch_item, breakfast_item]"
  by (simp add: parseCSVToJSON_def padded_menu_def lunch_item_def breakfast_item_def js_def
      trim_def is_ws_def newline_def comma_def split_def item_of_def at_def)

lemma constructor_menu_parsed: "parseCSVToJSON constructor_menu = Inr [constructor_item]"
  by (simp add: parseCSVToJSON_def constructor_menu_def constructor_item_def js_def trim_def
      is_ws_def newline_def comma_def split_def item_of_def at_def)

lemma constructor_item_throws: "groupByMealType [constructor_item] = Inl TypeError"
proof -
  have "category constructor_item \<in> set object_prototype_keys"
    by (simp add: constructor_item_def category_def object_prototype_keys_def)
  then show ?thesis
    using groupByMealType_throws [of constructor_item "[constructor_item]"] by simp
qed

lemma lunch_item_view: "menuView [lunch_item] = Inr [(js ''Lunch'', [lunch_item])]"
proof -
  have grouped: "groupByMealType [lunch_item] = Inr [(js ''Lunch'', [lunch_item])]"
    by (simp add: groupByMealType_def group_item_cases category_def lunch_item_def
        object_prototype_keys_def js_def)
  have "sortedMealTypes [(js ''Lunch'', [lunch_item])] = [js ''Lunch'']"
    by (simp add: sortedMealTypes_sort_key object_keys_def)
  then show ?thesis
    using menuView_groups [OF grouped] by (simp add: category_def lunch_item_def)
qed

text \<open>
  Claim C5, as amended. When the fetch is rejected, when the response is not \<open>ok\<close>, when
  reading the body fails, or when the parser throws, the cycle leaves the error state:
  \<open>loading\<close> is off and \<open>error\<close> is the one fixed message, whatever the cause, which goes to
  the console only. When the records left from before can be grouped, the main area shows
  that message.
\<close>

theorem failure_shows_fixed_message:
  assumes "fetched env = Rejected cause
           \<or> (\<exists>b. fetched env = Response False b \<and> cause = Error (js ''Failed to fetch menu''))
           \<or> fetched env = Response True (BodyFailed cause)
           \<or> (\<exists>csvText. fetched env = Response True (Body csvText) \<and> parseCSVToJSON csvText = Inl cause)"
  shows "error (fst (fetchMenuData s env)) = Some error_message
         \<and> loading (fst (fetchMenuData s env)) = False
         \<and> status_of (fst (fetchMenuData s env)) = Failed error_message
         \<and> snd (fetchMenuData s env) = [cause]
         \<and> error_message = js ''Unable to load menu. Please try again later.''
         \<and> (\<forall>groupedMenu. groupByMealType (menuItems s) = Inr groupedMenu \<longrightarrow>
               render (fst (fetchMenuData s env)) = Inr (currentDate s, ShowError error_message))"
proof -
  have thrown: "try_block env = Inl cause"
    using assms by (auto simp: try_block_def)
  have result: "fetchMenuData s env =
      (\<lparr>menuItems = menuItems s, loading = False, error = Some error_message,
        currentDate = currentDate s\<rparr>, [cause])"
    using thrown by (rule fetchMenuData_failure)
  have status: "status_of (fst (fetchMenuData s env)) = Failed error_message"
    using error_message_truthy by (simp add: result status_of_def truthy_def)
  have "render (fst (fetchMenuData s env)) = Inr (currentDate s, ShowError error_message)"
    if "groupByMealType (menuItems s) = Inr groupedMenu" for groupedMenu
    using that status by (simp add: render_def result)
  then show ?thesis
    using result status by (simp add: error_message_def)
qed

theorem failure_shows_fixed_message_witness:
  "fetched offline_env = Rejected (Error (js ''Failed to fetch''))
   \<and> groupByMealType (menuItems initial_state) = Inr []
   \<and> status_of (fst (fetchMenuData initial_state offline_env)) = Failed error_message
   \<and> snd (fetchMenuData initial_state offline_env) = [Error (js ''Failed to fetch'')]
   \<and> render (fst (fetchMenuData initial_state offline_env)) = Inr ([], ShowError error_message)"
proof -
  have rejected: "fetched offline_env = Rejected (Error (js ''Failed to fetch''))"
    by (simp add: offline_env_def)
  have grouped: "groupByMealType (menuItems initial_state) = Inr []"
    by (simp add: initial_state_def groupByMealType_def)
  have "currentDate initial_state = []"
    by (simp add: initial_state_def)
  then show ?thesis
    using rejected grouped
      failure_shows_fixed_message [of offline_env "Error (js ''Failed to fetch'')" initial_state]
    by simp
qed

text \<open>
  The claim as the spec states it fails when the stage that throws is the grouping: the
  cycle that fetches \<open>constructor_menu\<close> ends ready, with no error, and the grouping of the
  records it stored throws at the rendering.
\<close>

theorem grouping_failure_counterexample:
  "groupByMealType (menuItems (fst (fetchMenuData initial_state constructor_env))) = Inl TypeError
   \<and> error (fst (fetchMenuData initial_state constructor_env)) = None
   \<and> status_of (fst (fetchMenuData initial_state constructor_env)) = Ready
   \<and> snd (fetchMenuData initial_state constructor_env) = []
   \<and> render (fst (fetchMenuData initial_state constructor_env)) = Inl TypeError"
proof -
  have "todaysMenu [constructor_item] (js ''2024-01-01'') = [constructor_item]"
    by (simp add: todaysMenu_def constructor_item_def)
  then have "try_block constructor_env = Inr ([constructor_item], js ''Monday, 1 January 2024'')"
    by (simp add: try_block_def constructor_env_def constructor_menu_parsed)
  then have "fetchMenuData initial_state constructor_env =
      (\<lparr>menuItems = [constructor_item], loading = False, error = None,
        currentDate = js ''Monday, 1 January 2024''\<rparr>, [])"
    by (rule fetchMenuData_success)
  then show ?thesis
    using constructor_item_throws by (simp add: status_of_def truthy_def render_def)
qed





lemma todays_records_only_example:
  "lunch_item \<in> set (todaysMenu [lunch_item, breakfast_item] (js ''2024-01-01''))
   \<and> breakfast_item \<notin> set (todaysMenu [lunch_item, breakfast_item] (js ''2024-01-01''))
   \<and> fetched monday_env = Response True (Body padded_menu)
   \<and> parseCSVToJSON padded_menu = Inr [lunch_item, breakfast_item]
   \<and> lunch_item \<in> set (menuItems (fst (fetchMenuData initial_state monday_env)))
   \<and> breakfast_item \<notin> set (menuItems (fst (fetchMenuData initial_state monday_env)))
   \<and> menuView (todaysMenu [lunch_item, breakfast_item] (js ''2024-01-01'')) = Inr [(js ''Lunch'', [lunch_item])]
   \<and> lunch_item \<in> view_items [(js ''Lunch'', [lunch_item])]
   \<and> breakfast_item \<notin> view_items [(js ''Lunch'', [lunch_item])]"
proof -
  have fetch: "fetched monday_env = Response True (Body padded_menu)"
    and day: "today monday_env = js ''2024-01-01''"
    by (simp_all add: monday_env_def)
  have kept: "todaysMenu [lunch_item, breakfast_item] (js ''2024-01-01'') = [lunch_item]"
    by (simp add: todaysMenu_def lunch_item_def breakfast_item_def js_def)
  have view: "menuView (todaysMenu [lunch_item, breakfast_item] (js ''2024-01-01'')) = Inr [(js ''Lunch'', [lunch_item])]"
    by (simp add: kept lunch_item_view)
  have dates: "Date lunch_item = Str (js ''2024-01-01'')" "Date breakfast_item \<noteq> Str (js ''2024-01-01'')"
    by (simp_all add: lunch_item_def breakfast_item_def js_def)
  show ?thesis
    using fetch day view dates padded_menu_parsed
      todays_records_only [of lunch_item "[lunch_item, breakfast_item]" "js ''2024-01-01''"
        monday_env padded_menu initial_state "[(js ''Lunch'', [lunch_item])]"]
      todays_records_only [of breakfast_item "[lunch_item, breakfast_item]" "js ''2024-01-01''"
        monday_env padded_menu initial_state "[(js ''Lunch'', [lunch_item])]"]
    by simp
qed

text \<open>
  Claim C8. The view a refresh cycle leaves is a function of the fetched text and of
  \<open>today\<close> alone: it is the view of the pipeline on these two, whatever the state before
  and whatever the date label, so two cycles on the same text and the same \<open>today\<close>, one
  after the other or from different states, leave the same view; with the same date label
  they leave the same state and the same rendering.
\<close>

theorem pipeline_deterministic:
  assumes "fetched env1 = Response True (Body csv)"
    and "fetched env2 = Response True (Body csv)"
    and "today env1 = today env2"
  shows "menuView (menuItems (fst (fetchMenuData s1 env1))) = pipeline csv (today env1)
         \<and> menuView (menuItems (fst (fetchMenuData s2 env2)))
             = menuView (menuItems (fst (fetchMenuData s1 env1)))
         \<and> menuView (menuItems (fst (fetchMenuData (fst (fetchMenuData s1 env1)) env2)))
             = menuView (menuItems (fst (fetchMenuData s1 env1)))
         \<and> (dateLabel env1 = dateLabel env2 \<longrightarrow>
               fetchMenuData s2 env2 = fetchMenuData s1 env1
               \<and> fetchMenuData (fst (fetchMenuData s1 env1)) env2 = fetchMenuData s1 env1
               \<and> render (fst (fetchMenuData s2 env2)) = render (fst (fetchMenuData s1 env1)))"
proof -
  obtain data where parsed: "parseCSVToJSON csv = Inr data"
    by (simp add: parseCSVToJSON_eq)
  have run: "fetchMenuData s env =
      (\<lparr>menuItems = todaysMenu data (today env), loading = False, error = None,
        currentDate = dateLabel env\<rparr>, [])"
    if "fetched env = Response True (Body csv)" for s env
    using that parsed by (intro fetchMenuData_success) (simp add: try_block_body)
  have "pipeline csv (today env1) = menuView (todaysMenu data (today env1))"
    using parsed by (simp add: pipeline_def)
  then show ?thesis
    using assms(3) by (simp add: run [OF assms(1)] run [OF assms(2)])
qed

theorem pipeline_deterministic_witness:
  "fetched monday_env = Response True (Body padded_menu)
   \<and> today monday_env = js ''2024-01-01''
   \<and> pipeline padded_menu (js ''2024-01-01'') = Inr [(js ''Lunch'', [lunch_item])]
   \<and> menuView (menuItems (fst (fetchMenuData initial_state monday_env))) = Inr [(js ''Lunch'', [lunch_item])]
   \<and> menuView (menuItems (fst (fetchMenuData monday_state monday_env))) = Inr [(js ''Lunch'', [lunch_item])]
   \<and> fetchMenuData monday_state monday_env = fetchMenuData initial_state monday_env"
proof -
  have fetch: "fetched monday_env = Response True (Body padded_menu)"
    and day: "today monday_env = js ''2024-01-01''"
    by (simp_all add: monday_env_def)
  have "todaysMenu [lunch_item, breakfast_item] (js ''2024-01-01'') = [lunch_item]"
    by (simp add: todaysMenu_def lunch_item_def breakfast_item_def js_def)
  then have view: "pipeline padded_menu (js ''2024-01-01'') = Inr [(js ''Lunch'', [lunch_item])]"
    by (simp add: pipeline_def padded_menu_parsed lunch_item_view)
  from pipeline_deterministic [OF fetch fetch refl, of initial_state monday_state]
  have "menuView (menuItems (fst (fetchMenuData initial_state monday_env))) = pipeline padded_menu (today monday_env)"
    and "menuView (menuItems (fst (fetchMenuData monday_state monday_env)))
             = menuView (menuItems (fst (fetchMenuData initial_state monday_env)))"
    and "fetchMenuData monday_state monday_env = fetchMenuData initial_state monday_env"
    by blast+
  then show ?thesis
    using fetch day view by simp
qed




text \<open>
  Claim C2. A record is in the view exactly when its date is the string \<open>today\<close>. The
  code breaks this when a record of today has a category that is the name of a property of
  \<open>Object.prototype\<close>: of three records, the filter keeps the two dated 2024-01-01, a
  lunch and a record of category \<open>constructor\<close>; the grouping of these two throws a
  \<open>TypeError\<close>, so there is no view, and neither of today's records is shown.
\<close>

theorem todays_records_without_view:
  "todaysMenu [lunch_item, constructor_item, breakfast_item] (js ''2024-01-01'')
     = [lunch_item, constructor_item]
   \<and> Date lunch_item = Str (js ''2024-01-01'')
   \<and> Date constructor_item = Str (js ''2024-01-01'')
   \<and> groupByMealType [lunch_item, constructor_item] = Inl TypeError
   \<and> menuView (todaysMenu [lunch_item, constructor_item, breakfast_item] (js ''2024-01-01''))
       = Inl TypeError"
proof -
  have kept: "todaysMenu [lunch_item, constructor_item, breakfast_item] (js ''2024-01-01'')
      = [lunch_item, constructor_item]"
    by (simp add: todaysMenu_def lunch_item_def constructor_item_def breakfast_item_def js_def)
  have dates: "Date lunch_item = Str (js ''2024-01-01'')"
    "Date constructor_item = Str (js ''2024-01-01'')"
    by (simp_all add: lunch_item_def constructor_item_def)
  have "category constructor_item \<in> set object_prototype_keys"
    by (simp add: constructor_item_def category_def object_prototype_keys_def)
  then have thrown: "groupByMealType [lunch_item, constructor_item] = Inl TypeError"
    using groupByMealType_throws [of constructor_item "[lunch_item, constructor_item]"] by simp
  then have "menuView [lunch_item, constructor_item] = Inl TypeError"
    by (simp add: menuView_def)
  then show ?thesis
    using kept dates thrown by simp
qed

end
